theory Spec2Isabelle
  imports Main "HOL-Library.Sublist"
begin

section \<open>Data model\<close>

text \<open>
  The conversation templates of \<^verbatim>\<open>lmflow/utils/conversation_template/qwen.py\<close> are
  Jinja chat templates. Every piece of their source is a tag: there is no literal text
  between two tags, so the whitespace control of \<^verbatim>\<open>{%-\<close> and \<^verbatim>\<open>-%}\<close> has nothing to trim
  and a template is the sequence of its output expressions and control tags.

  A JSON-like value, as a tool description or the arguments of a tool call.
\<close>

datatype json =
    JNull
  | JBool bool
  | JInt int
  | JString string
  | JList "json list"
  | JDict "(string \<times> json) list"

text \<open>
  An attribute that a message or the context may lack: Jinja distinguishes an undefined
  name, the value none and a value.
\<close>

datatype 'a attr = Undefined | PyNone | Value 'a

record call =
  name :: string
  arguments :: json

text \<open>
  A tool call is either the call itself or an object whose \<^verbatim>\<open>function\<close> entry is the call.
\<close>

datatype tool_call = Flat call | Wrapped call

text \<open>
  \<^verbatim>\<open>tool_calls\<close> is only ever tested for truth and iterated under that test, so a message
  without the entry is the message with the empty list.
\<close>

record message =
  role :: string
  content :: string
  tool_calls :: "tool_call list"
  reasoning_content :: "string attr"

text \<open>
  The render context. An absent tool list is the empty one: \<^verbatim>\<open>tools\<close> is tested for
  truth before it is iterated.
\<close>

record render_context =
  messages :: "message list"
  tools :: "json list"
  add_generation_prompt :: bool
  enable_thinking :: "bool attr"

datatype eval_error = UndefinedError

section \<open>The evaluator's output buffer\<close>

text \<open>
  Output expressions append to a buffer. A generation block records the length of the
  buffer before and after its body as one span.
\<close>

record rstate =
  buf :: string
  spans :: "(nat \<times> nat) list"

definition emit :: "string \<Rightarrow> rstate \<Rightarrow> rstate" where
  "emit s st = st\<lparr>buf := buf st @ s\<rparr>"

definition generation :: "(rstate \<Rightarrow> rstate) \<Rightarrow> rstate \<Rightarrow> rstate" where
  "generation body st =
     (let st' = body st
      in st'\<lparr>spans := spans st' @ [(length (buf st), length (buf st'))]\<rparr>)"

text \<open>Statements in sequence, in the order of the template source.\<close>

definition seq :: "(rstate \<Rightarrow> rstate) list \<Rightarrow> rstate \<Rightarrow> rstate" where
  "seq fs st = fold (\<lambda>f. f) fs st"

definition skip :: "rstate \<Rightarrow> rstate" where
  "skip st = st"

section \<open>String methods\<close>

definition startswith :: "string \<Rightarrow> string \<Rightarrow> bool" where
  "startswith s p = prefix p s"

definition endswith :: "string \<Rightarrow> string \<Rightarrow> bool" where
  "endswith s p = suffix p s"

definition str_in :: "string \<Rightarrow> string \<Rightarrow> bool" where
  "str_in p s = sublist p s"

definition lstrip :: "string \<Rightarrow> string \<Rightarrow> string" where
  "lstrip s chars = dropWhile (\<lambda>c. c \<in> set chars) s"

definition rstrip :: "string \<Rightarrow> string \<Rightarrow> string" where
  "rstrip s chars = rev (dropWhile (\<lambda>c. c \<in> set chars) (rev s))"

definition strip :: "string \<Rightarrow> string \<Rightarrow> string" where
  "strip s chars = lstrip (rstrip s chars) chars"

text \<open>
  \<^verbatim>\<open>s.split(sep)\<close> scans from the left and cuts at each occurrence of the separator found,
  resuming after it. The separators of the templates are non-empty literals (the empty
  one, which Python rejects, cuts nowhere here).
\<close>

function split_from :: "string \<Rightarrow> string \<Rightarrow> string \<Rightarrow> string list" where
  "split_from sep acc [] = [acc]"
| "split_from sep acc (c # cs) =
     (if sep \<noteq> [] \<and> prefix sep (c # cs)
      then acc # split_from sep [] (drop (length sep) (c # cs))
      else split_from sep (acc @ [c]) cs)"
  by pat_completeness auto
termination
  by (relation "measure (\<lambda>(sep, acc, s). length s)") auto

definition split_str :: "string \<Rightarrow> string \<Rightarrow> string list" where
  "split_str s sep = split_from sep [] s"

section \<open>Literals shared by the templates\<close>

definition tools_outro :: string where
  \<open>tools_outro = ''\<newline></tools>\<newline>\<newline>For each function call, return a json object with function name and arguments within <tool_call></tool_call> XML tags:\<newline><tool_call>\<newline>{"name": <function-name>, "arguments": <args-json-object>}\<newline></tool_call><|im_end|>\<newline>''\<close>

definition qwen2_5_tools_intro :: string where
  \<open>qwen2_5_tools_intro = ''\<newline>\<newline># Tools\<newline>\<newline>You may call one or more functions to assist with the user query.\<newline>\<newline>You are provided with function signatures within <tools></tools> XML tags:\<newline><tools>''\<close>

definition qwen3_tools_intro :: string where
  \<open>qwen3_tools_intro = ''# Tools\<newline>\<newline>You may call one or more functions to assist with the user query.\<newline>\<newline>You are provided with function signatures within <tools></tools> XML tags:\<newline><tools>''\<close>

section \<open>The Qwen2.5 family\<close>

text \<open>
  \<^verbatim>\<open>QWEN2_5_TEMPLATE\<close>, \<^verbatim>\<open>QWEN2_5_1M_TEMPLATE\<close>, \<^verbatim>\<open>QWEN2_5_MATH_TEMPLATE\<close> and
  \<^verbatim>\<open>QWEN_QWQ_TEMPLATE\<close> are the same template text up to the default system prompt;
  \<^verbatim>\<open>QWEN3_TEMPLATE\<close> is the reasoning-capable one.
\<close>

datatype template =
    QWEN2_5_TEMPLATE
  | QWEN2_5_1M_TEMPLATE
  | QWEN2_5_MATH_TEMPLATE
  | QWEN_QWQ_TEMPLATE
  | QWEN3_TEMPLATE

fun default_system_prompt :: "template \<Rightarrow> string" where
  \<open>default_system_prompt QWEN2_5_TEMPLATE =
     ''You are Qwen, created by Alibaba Cloud. You are a helpful assistant.''\<close>
| \<open>default_system_prompt QWEN2_5_1M_TEMPLATE = ''You are a helpful assistant.''\<close>
| \<open>default_system_prompt QWEN2_5_MATH_TEMPLATE =
     ''Please reason step by step, and put your final answer within '' @ [CHR 0x5C] @ ''boxed{}.''\<close>
| \<open>default_system_prompt QWEN_QWQ_TEMPLATE =
     ''You are a helpful and harmless assistant. You are Qwen developed by Alibaba. You should think step-by-step.''\<close>
| \<open>default_system_prompt QWEN3_TEMPLATE = []\<close>

text \<open>
  The system turn. Both branches read \<^verbatim>\<open>messages[0]['role']\<close>: on an empty message list
  \<^verbatim>\<open>messages[0]\<close> is undefined and reading an entry of it raises, which the caller
  \<open>qwen2_5_render\<close> checks first.
\<close>

definition qwen2_5_system ::
  "template \<Rightarrow> (json \<Rightarrow> string) \<Rightarrow> render_context \<Rightarrow> rstate \<Rightarrow> rstate" where
  \<open>qwen2_5_system tpl tojson ctx =
     (let messages_0 = hd (messages ctx)
      in if tools ctx \<noteq> [] then seq [
           emit ''<|im_start|>system\<newline>'',
           (if role messages_0 = ''system''
            then emit (content messages_0)
            else emit (default_system_prompt tpl)),
           emit qwen2_5_tools_intro,
           fold (\<lambda>tool. seq [emit ''\<newline>'', emit (tojson tool)]) (tools ctx),
           emit tools_outro]
         else
           (if role messages_0 = ''system''
            then emit (''<|im_start|>system\<newline>'' @ content messages_0 @ ''<|im_end|>\<newline>'')
            else emit (''<|im_start|>system\<newline>'' @ default_system_prompt tpl
                       @ ''<|im_end|>\<newline>'')))\<close>

definition qwen2_5_tool_call :: "(json \<Rightarrow> string) \<Rightarrow> tool_call \<Rightarrow> rstate \<Rightarrow> rstate" where
  \<open>qwen2_5_tool_call tojson tool_call =
     (let tool_call = (case tool_call of Wrapped function \<Rightarrow> function | Flat c \<Rightarrow> c)
      in generation (seq [
           emit ''\<newline><tool_call>\<newline>{"name": "'',
           emit (name tool_call),
           emit ''", "arguments": '',
           emit (tojson (arguments tool_call)),
           emit ''}\<newline></tool_call>'']))\<close>

definition qwen2_5_message ::
  "(json \<Rightarrow> string) \<Rightarrow> message list \<Rightarrow> nat \<Rightarrow> rstate \<Rightarrow> rstate" where
  \<open>qwen2_5_message tojson msgs loop_index0 =
     (let message = msgs ! loop_index0;
          loop_first = (loop_index0 = 0);
          loop_last = (loop_index0 + 1 = length msgs)
      in if role message = ''user'' \<or> (role message = ''system'' \<and> \<not> loop_first)
            \<or> (role message = ''assistant'' \<and> tool_calls message = [])
         then
           (if role message = ''assistant'' then seq [
              emit (''<|im_start|>'' @ role message @ ''\<newline>''),
              generation (emit (content message @ ''<|im_end|>'' @ ''\<newline>''))]
            else emit (''<|im_start|>'' @ role message @ ''\<newline>'' @ content message
                       @ ''<|im_end|>'' @ ''\<newline>''))
         else if role message = ''assistant'' then seq [
           emit (''<|im_start|>'' @ role message),
           (if content message \<noteq> []
            then generation (emit (''\<newline>'' @ content message)) else skip),
           fold (qwen2_5_tool_call tojson) (tool_calls message),
           generation (emit ''<|im_end|>\<newline>'')]
         else if role message = ''tool'' then seq [
           (if loop_index0 = 0 \<or> role (msgs ! (loop_index0 - 1)) \<noteq> ''tool''
            then emit ''<|im_start|>user'' else skip),
           emit ''\<newline><tool_response>\<newline>'',
           emit (content message),
           emit ''\<newline></tool_response>'',
           (if loop_last \<or> role (msgs ! (loop_index0 + 1)) \<noteq> ''tool''
            then emit ''<|im_end|>\<newline>'' else skip)]
         else skip)\<close>

text \<open>
  The template after its first read of \<^verbatim>\<open>messages[0]\<close>, and the whole template: on an
  empty message list that first read raises and nothing is rendered.
\<close>

definition qwen2_5_body ::
  "template \<Rightarrow> (json \<Rightarrow> string) \<Rightarrow> render_context \<Rightarrow> rstate \<Rightarrow> rstate" where
  \<open>qwen2_5_body tpl tojson ctx =
     seq [
       qwen2_5_system tpl tojson ctx,
       fold (qwen2_5_message tojson (messages ctx)) [0..<length (messages ctx)],
       (if add_generation_prompt ctx
        then emit ''<|im_start|>assistant\<newline>'' else skip)]\<close>

definition qwen2_5_render ::
  "template \<Rightarrow> (json \<Rightarrow> string) \<Rightarrow> render_context \<Rightarrow> rstate \<Rightarrow> eval_error + rstate" where
  "qwen2_5_render tpl tojson ctx st =
     (if messages ctx = [] then Inl UndefinedError
      else Inr (qwen2_5_body tpl tojson ctx st))"

section \<open>The Qwen3 template\<close>

definition qwen3_system :: "(json \<Rightarrow> string) \<Rightarrow> render_context \<Rightarrow> rstate \<Rightarrow> rstate" where
  \<open>qwen3_system tojson ctx =
     (let messages_0 = hd (messages ctx)
      in if tools ctx \<noteq> [] then seq [
           emit ''<|im_start|>system\<newline>'',
           (if role messages_0 = ''system''
            then emit (content messages_0 @ ''\<newline>\<newline>'') else skip),
           emit qwen3_tools_intro,
           fold (\<lambda>tool. seq [emit ''\<newline>'', emit (tojson tool)]) (tools ctx),
           emit tools_outro]
         else
           (if role messages_0 = ''system''
            then emit (''<|im_start|>system\<newline>'' @ content messages_0 @ ''<|im_end|>\<newline>'')
            else skip))\<close>

text \<open>
  The namespace object, the one binding that survives the iterations of a loop, and the
  scan that sets it: \<^verbatim>\<open>for message in messages[::-1]\<close> with
  \<^verbatim>\<open>index = (messages|length - 1) - loop.index0\<close>.
\<close>

record namespace =
  multi_step_tool :: bool
  last_query_index :: int

definition reverse_visits :: "message list \<Rightarrow> (int \<times> message) list" where
  "reverse_visits msgs =
     map (\<lambda>loop_index0. ((int (length msgs) - 1) - int loop_index0, rev msgs ! loop_index0))
       [0..<length (rev msgs)]"

definition scan_message :: "int \<times> message \<Rightarrow> namespace \<Rightarrow> namespace" where
  \<open>scan_message = (\<lambda>(index, message) ns.
     if multi_step_tool ns \<and> role message = ''user''
        \<and> \<not> (startswith (content message) ''<tool_response>''
             \<and> endswith (content message) ''</tool_response>'')
     then ns\<lparr>multi_step_tool := False, last_query_index := index\<rparr>
     else ns)\<close>

definition last_query_scan :: "message list \<Rightarrow> namespace" where
  "last_query_scan msgs =
     fold scan_message (reverse_visits msgs)
       \<lparr>multi_step_tool = True, last_query_index = int (length msgs) - 1\<rparr>"

text \<open>
  The visible content and the reasoning content of an assistant message, in this order.
\<close>

definition derive_reasoning :: "message \<Rightarrow> string \<times> string" where
  \<open>derive_reasoning message =
     (let content0 = content message;
          reasoning0 = []
      in case reasoning_content message of
           Value r \<Rightarrow> (content0, r)
         | _ \<Rightarrow>
            if str_in ''</think>'' (content message)
            then (lstrip (last (split_str (content message) ''</think>'')) ''\<newline>'',
                  lstrip (last (split_str
                     (rstrip (hd (split_str (content message) ''</think>'')) ''\<newline>'')
                     ''<think>'')) ''\<newline>'')
            else (content0, reasoning0))\<close>

definition qwen3_tool_call ::
  "(json \<Rightarrow> string) \<Rightarrow> string \<Rightarrow> tool_call list \<Rightarrow> nat \<Rightarrow> rstate \<Rightarrow> rstate" where
  \<open>qwen3_tool_call tojson content' tcs loop_index0 =
     (let loop_first = (loop_index0 = 0);
          tool_call = (case tcs ! loop_index0 of Wrapped function \<Rightarrow> function | Flat c \<Rightarrow> c)
      in seq [
        (if (loop_first \<and> content' \<noteq> []) \<or> \<not> loop_first then emit ''\<newline>'' else skip),
        emit ''<tool_call>\<newline>{"name": "'',
        emit (name tool_call),
        emit ''", "arguments": '',
        (case arguments tool_call of
           JString s \<Rightarrow> emit s
         | a \<Rightarrow> emit (tojson a)),
        emit ''}\<newline></tool_call>''])\<close>

definition qwen3_assistant ::
  "(json \<Rightarrow> string) \<Rightarrow> namespace \<Rightarrow> message list \<Rightarrow> nat \<Rightarrow> rstate \<Rightarrow> rstate" where
  \<open>qwen3_assistant tojson ns msgs loop_index0 =
     (let message = msgs ! loop_index0;
          loop_last = (loop_index0 + 1 = length msgs)
      in generation
        (case derive_reasoning message of (content', reasoning_content') \<Rightarrow> seq [
           (if int loop_index0 > last_query_index ns then
              (if loop_last \<or> (\<not> loop_last \<and> reasoning_content' \<noteq> [])
               then emit (''<|im_start|>'' @ role message @ ''\<newline><think>\<newline>''
                          @ strip reasoning_content' ''\<newline>'' @ ''\<newline></think>\<newline>\<newline>''
                          @ lstrip content' ''\<newline>'')
               else emit (''<|im_start|>'' @ role message @ ''\<newline>'' @ content'))
            else emit (''<|im_start|>'' @ role message @ ''\<newline>'' @ content')),
           (if tool_calls message \<noteq> []
            then fold (qwen3_tool_call tojson content' (tool_calls message))
                   [0..<length (tool_calls message)]
            else skip),
           emit ''<|im_end|>\<newline>'']))\<close>

definition qwen3_message ::
  "(json \<Rightarrow> string) \<Rightarrow> namespace \<Rightarrow> message list \<Rightarrow> nat \<Rightarrow> rstate \<Rightarrow> rstate" where
  \<open>qwen3_message tojson ns msgs loop_index0 =
     (let message = msgs ! loop_index0;
          loop_first = (loop_index0 = 0);
          loop_last = (loop_index0 + 1 = length msgs)
      in if role message = ''user'' \<or> (role message = ''system'' \<and> \<not> loop_first)
         then emit (''<|im_start|>'' @ role message @ ''\<newline>'' @ content message
                    @ ''<|im_end|>'' @ ''\<newline>'')
         else if role message = ''assistant'' then qwen3_assistant tojson ns msgs loop_index0
         else if role message = ''tool'' then seq [
           (if loop_first \<or> role (msgs ! (loop_index0 - 1)) \<noteq> ''tool''
            then emit ''<|im_start|>user'' else skip),
           emit ''\<newline><tool_response>\<newline>'',
           emit (content message),
           emit ''\<newline></tool_response>'',
           (if loop_last \<or> role (msgs ! (loop_index0 + 1)) \<noteq> ''tool''
            then emit ''<|im_end|>\<newline>'' else skip)]
         else skip)\<close>

definition qwen3_body :: "(json \<Rightarrow> string) \<Rightarrow> render_context \<Rightarrow> rstate \<Rightarrow> rstate" where
  \<open>qwen3_body tojson ctx =
     (let ns = last_query_scan (messages ctx)
      in seq [
        qwen3_system tojson ctx,
        fold (qwen3_message tojson ns (messages ctx)) [0..<length (messages ctx)],
        (if add_generation_prompt ctx then seq [
           emit ''<|im_start|>assistant\<newline>'',
           (if enable_thinking ctx = Value False
            then emit ''<think>\<newline>\<newline></think>\<newline>\<newline>'' else skip)]
         else skip)])\<close>

definition qwen3_render ::
  "(json \<Rightarrow> string) \<Rightarrow> render_context \<Rightarrow> rstate \<Rightarrow> eval_error + rstate" where
  "qwen3_render tojson ctx st =
     (if messages ctx = [] then Inl UndefinedError
      else Inr (qwen3_body tojson ctx st))"

section \<open>Rendering\<close>

text \<open>
  A render starts from the empty buffer and returns the output with its generation spans.
\<close>

definition render ::
  "template \<Rightarrow> (json \<Rightarrow> string) \<Rightarrow> render_context
     \<Rightarrow> eval_error + (string \<times> (nat \<times> nat) list)" where
  "render tpl tojson ctx =
     (case (case tpl of
              QWEN3_TEMPLATE \<Rightarrow> qwen3_render tojson ctx \<lparr>buf = [], spans = []\<rparr>
            | _ \<Rightarrow> qwen2_5_render tpl tojson ctx \<lparr>buf = [], spans = []\<rparr>) of
        Inl e \<Rightarrow> Inl e
      | Inr st \<Rightarrow> Inr (buf st, spans st))"

section \<open>Generation spans\<close>

text \<open>
  Spans in order between two offsets: each span is a half-open pair that starts at or after
  the end of the one before it and ends at or before the upper offset.
\<close>

fun chain :: "nat \<Rightarrow> (nat \<times> nat) list \<Rightarrow> nat \<Rightarrow> bool" where
  "chain lo [] hi = (lo \<le> hi)"
| "chain lo ((s, e) # sp) hi = (lo \<le> s \<and> s \<le> e \<and> chain e sp hi)"

text \<open>
  What a piece of a template does to any buffer: it appends a text, and spans that lie
  inside that text.
\<close>

definition shift :: "nat \<Rightarrow> nat \<times> nat \<Rightarrow> nat \<times> nat" where
  "shift k = (\<lambda>(s, e). (k + s, k + e))"

definition append_out :: "rstate \<Rightarrow> string \<Rightarrow> (nat \<times> nat) list \<Rightarrow> rstate" where
  "append_out st t sp = \<lparr>buf = buf st @ t, spans = spans st @ map (shift (length (buf st))) sp\<rparr>"

definition writes :: "(rstate \<Rightarrow> rstate) \<Rightarrow> bool" where
  "writes f = (\<exists>t. \<forall>st. f st = append_out st t [])"

definition appends :: "(rstate \<Rightarrow> rstate) \<Rightarrow> bool" where
  "appends f = (\<exists>t sp. chain 0 sp (length t) \<and> (\<forall>st. f st = append_out st t sp))"

text \<open>
  The output cut at the span boundaries: the gap before each span, the span, and the rest.
\<close>

definition slice :: "nat \<Rightarrow> nat \<Rightarrow> string \<Rightarrow> string" where
  "slice a b s = take (b - a) (drop a s)"

fun segments :: "nat \<Rightarrow> string \<Rightarrow> (nat \<times> nat) list \<Rightarrow> string list" where
  "segments pos out [] = [drop pos out]"
| "segments pos out ((s, e) # sp) = slice pos s out # slice s e out # segments e out sp"

section \<open>Example conversations\<close>

definition example_tool_conversation :: render_context where
  \<open>example_tool_conversation = \<lparr>
     messages = [
       \<lparr>role = ''user'', content = ''q'', tool_calls = [], reasoning_content = Undefined\<rparr>,
       \<lparr>role = ''assistant'', content = ''a'',
        tool_calls = [Flat \<lparr>name = ''f'', arguments = JString ''{}''\<rparr>],
        reasoning_content = Undefined\<rparr>,
       \<lparr>role = ''tool'', content = ''r'', tool_calls = [], reasoning_content = Undefined\<rparr>,
       \<lparr>role = ''assistant'', content = ''b'', tool_calls = [], reasoning_content = Undefined\<rparr>],
     tools = [], add_generation_prompt = False, enable_thinking = Undefined\<rparr>\<close>

definition example_tool_rendered :: string where
  \<open>example_tool_rendered = ''<|im_start|>system\<newline>You are a helpful assistant.<|im_end|>\<newline><|im_start|>user\<newline>q<|im_end|>\<newline><|im_start|>assistant\<newline>a\<newline><tool_call>\<newline>{"name": "f", "arguments": null}\<newline></tool_call><|im_end|>\<newline><|im_start|>user\<newline><tool_response>\<newline>r\<newline></tool_response><|im_end|>\<newline><|im_start|>assistant\<newline>b<|im_end|>\<newline>''\<close>

text \<open>
  The text of one tool message as the batching rule words it: the wrapper opens only after
  a message that is not a tool message (or at the start) and closes only before one (or at
  the end).
\<close>

definition tool_response :: "string \<Rightarrow> string" where
  \<open>tool_response c = ''\<newline><tool_response>\<newline>'' @ c @ ''\<newline></tool_response>''\<close>



text \<open>
  A true user query: a user message that is not a wrapped tool response.
\<close>

definition true_query :: "message \<Rightarrow> bool" where
  \<open>true_query m = (role m = ''user''
     \<and> \<not> (startswith (content m) ''<tool_response>'' \<and> endswith (content m) ''</tool_response>''))\<close>

text \<open>
  What the reverse scan has established once it has visited the messages from index k on.
\<close>

definition scanned :: "message list \<Rightarrow> nat \<Rightarrow> namespace \<Rightarrow> bool" where
  "scanned msgs k ns =
     (if \<exists>j. k \<le> j \<and> j < length msgs \<and> true_query (msgs ! j)
      then \<not> multi_step_tool ns
        \<and> (\<exists>j. last_query_index ns = int j \<and> k \<le> j \<and> j < length msgs \<and> true_query (msgs ! j)
              \<and> (\<forall>j'. j < j' \<and> j' < length msgs \<longrightarrow> \<not> true_query (msgs ! j')))
      else multi_step_tool ns \<and> last_query_index ns = int (length msgs) - 1)"

text \<open>
  The text of one tool call of an assistant message, and the head of an assistant turn.
\<close>

definition tool_call_text :: "(json \<Rightarrow> string) \<Rightarrow> string \<Rightarrow> tool_call list \<Rightarrow> nat \<Rightarrow> string" where
  \<open>tool_call_text tojson content' tcs k =
     (let c = (case tcs ! k of Wrapped f \<Rightarrow> f | Flat c \<Rightarrow> c)
      in (if k = 0 \<and> content' = [] then [] else ''\<newline>'')
         @ ''<tool_call>\<newline>{"name": "'' @ name c @ ''", "arguments": ''
         @ (case arguments c of JString s \<Rightarrow> s | a \<Rightarrow> tojson a)
         @ ''}\<newline></tool_call>'')\<close>

definition assistant_head :: "int \<Rightarrow> message list \<Rightarrow> nat \<Rightarrow> string" where
  \<open>assistant_head lqi msgs i =
     (case derive_reasoning (msgs ! i) of (c, r) \<Rightarrow>
        if lqi < int i \<and> (i + 1 = length msgs \<or> r \<noteq> [])
        then ''<|im_start|>assistant\<newline><think>\<newline>'' @ strip r ''\<newline>''
             @ ''\<newline></think>\<newline>\<newline>'' @ lstrip c ''\<newline>''
        else ''<|im_start|>assistant\<newline>'' @ c)\<close>

definition example_reasoning_conversation :: "message list" where
  \<open>example_reasoning_conversation = [
     \<lparr>role = ''user'', content = ''q'', tool_calls = [], reasoning_content = Undefined\<rparr>,
     \<lparr>role = ''assistant'', content = ''<think>\<newline>r\<newline></think>\<newline>\<newline>hi'', tool_calls = [],
      reasoning_content = Undefined\<rparr>]\<close>


definition example_user_assistant_user :: "message list" where
  \<open>example_user_assistant_user = [
     \<lparr>role = ''user'', content = ''a'', tool_calls = [], reasoning_content = Undefined\<rparr>,
     \<lparr>role = ''assistant'', content = ''b'', tool_calls = [], reasoning_content = Undefined\<rparr>,
     \<lparr>role = ''user'', content = ''c'', tool_calls = [], reasoning_content = Undefined\<rparr>]\<close>

text \<open>
  A conversation that ends on a user query, rendered with thinking switched off.
\<close>

definition example_prompt_context :: render_context where
  \<open>example_prompt_context = \<lparr>
     messages = [
       \<lparr>role = ''user'', content = ''q'', tool_calls = [], reasoning_content = Undefined\<rparr>,
       \<lparr>role = ''assistant'', content = ''a'', tool_calls = [], reasoning_content = Undefined\<rparr>,
       \<lparr>role = ''user'', content = ''p'', tool_calls = [], reasoning_content = Undefined\<rparr>],
     tools = [], add_generation_prompt = False, enable_thinking = Value False\<rparr>\<close>








section \<open>The declarative templates\<close>

text \<open>
  \<^verbatim>\<open>QWEN2_TEMPLATE\<close> and \<^verbatim>\<open>YI1_5_TEMPLATE\<close> are built from \<^verbatim>\<open>TemplateComponent\<close>,
  \<^verbatim>\<open>StringFormatter\<close> and \<^verbatim>\<open>ConversationTemplate\<close>, whose classes are in \<^verbatim>\<open>base.py\<close>. The
  records hold the arguments the two constructions pass; a template built without a
  separator has none.
\<close>

record TemplateComponent =
  component_type :: string
  component_content :: string

record StringFormatter =
  template :: "TemplateComponent list"

record ConversationTemplate =
  template_name :: string
  user_formatter :: StringFormatter
  assistant_formatter :: StringFormatter
  system_formatter :: StringFormatter
  separator :: "TemplateComponent option"

definition QWEN2_TEMPLATE :: ConversationTemplate where
  \<open>QWEN2_TEMPLATE = \<lparr>
     template_name = ''qwen2'',
     user_formatter = \<lparr>template = [\<lparr>component_type = ''string'',
       component_content = ''<|im_start|>user\<newline>{{content}}<|im_end|>\<newline>''\<rparr>]\<rparr>,
     assistant_formatter = \<lparr>template = [\<lparr>component_type = ''string'',
       component_content = ''<|im_start|>assistant\<newline>{{content}}<|im_end|>\<newline>''\<rparr>]\<rparr>,
     system_formatter = \<lparr>template = [\<lparr>component_type = ''string'',
       component_content = ''<|im_start|>system\<newline>{{content}}<|im_end|>\<newline>''\<rparr>]\<rparr>,
     separator = Some \<lparr>component_type = ''string'', component_content = ''\<newline>''\<rparr>\<rparr>\<close>

definition YI1_5_TEMPLATE :: ConversationTemplate where
  \<open>YI1_5_TEMPLATE = \<lparr>
     template_name = ''yi1_5'',
     user_formatter = \<lparr>template = [\<lparr>component_type = ''string'',
       component_content = ''<|im_start|>user\<newline>{{content}}<|im_end|>\<newline>''\<rparr>]\<rparr>,
     assistant_formatter = \<lparr>template = [\<lparr>component_type = ''string'',
       component_content = ''<|im_start|>assistant\<newline>{{content}}<|im_end|>\<newline>''\<rparr>]\<rparr>,
     system_formatter = \<lparr>template = [\<lparr>component_type = ''string'',
       component_content = ''{{content}}''\<rparr>]\<rparr>,
     separator = None\<rparr>\<close>

text \<open>
  Modelled from the spec: the renderer of \<^verbatim>\<open>base.py\<close> is missing. Rendered messages are joined
  with the separator, as \<^verbatim>\<open>sep.join(parts)\<close> does.
\<close>

fun join_str :: "string \<Rightarrow> string list \<Rightarrow> string" where
  "join_str sep [] = []"
| "join_str sep [x] = x"
| "join_str sep (x # y # ys) = x @ sep @ join_str sep (y # ys)"

text \<open>
  Modelled from the spec: the substitution of the content into the placeholder, missing
  with \<^verbatim>\<open>base.py\<close>. The placeholder is the text \<^verbatim>\<open>{{content}}\<close> inside a string component, and
  replacing it is cutting the component at the placeholder and joining with the content.
\<close>

definition str_replace :: "string \<Rightarrow> string \<Rightarrow> string \<Rightarrow> string" where
  "str_replace s old new = join_str new (split_str s old)"

text \<open>
  Modelled from the spec: \<^verbatim>\<open>render(formatter, content)\<close> of the missing \<^verbatim>\<open>base.py\<close> substitutes
  the content into the placeholder and concatenates the components in order; a component
  that is not a string renders to its symbolic text.
\<close>

definition format_component :: "TemplateComponent \<Rightarrow> string \<Rightarrow> string" where
  \<open>format_component c text =
     (if component_type c = ''string''
      then str_replace (component_content c) ''{{content}}'' text
      else component_content c)\<close>

text \<open>
  Modelled from the spec: the formatter of the missing \<^verbatim>\<open>base.py\<close> renders its components in
  order.
\<close>

definition formatter_render :: "StringFormatter \<Rightarrow> string \<Rightarrow> string" where
  "formatter_render f text = concat (map (\<lambda>c. format_component c text) (template f))"

text \<open>
  Modelled from the spec: \<^verbatim>\<open>ConversationTemplate.render\<close> of the missing \<^verbatim>\<open>base.py\<close> dispatches
  each message to the formatter of its role and fails on a role without one.
\<close>

datatype render_error = UnsupportedRole

text \<open>
  Modelled from the spec: the dispatch on the role, missing with \<^verbatim>\<open>base.py\<close>.
\<close>

definition role_formatter :: "ConversationTemplate \<Rightarrow> string \<Rightarrow> StringFormatter option" where
  \<open>role_formatter T r =
     (if r = ''system'' then Some (system_formatter T)
      else if r = ''user'' then Some (user_formatter T)
      else if r = ''assistant'' then Some (assistant_formatter T)
      else None)\<close>

text \<open>
  Modelled from the spec: the messages rendered one by one, missing with \<^verbatim>\<open>base.py\<close>; the
  first unsupported role fails the render.
\<close>

fun render_messages :: "ConversationTemplate \<Rightarrow> message list \<Rightarrow> render_error + string list" where
  "render_messages T [] = Inr []"
| "render_messages T (m # ms) =
     (case role_formatter T (role m) of
        None \<Rightarrow> Inl UnsupportedRole
      | Some f \<Rightarrow>
          (case render_messages T ms of
             Inl e \<Rightarrow> Inl e
           | Inr rest \<Rightarrow> Inr (formatter_render f (content m) # rest)))"

text \<open>
  Modelled from the spec: \<^verbatim>\<open>ConversationTemplate.render(messages)\<close> of the missing \<^verbatim>\<open>base.py\<close>
  joins the rendered messages with the separator.
\<close>

definition conversation_render :: "ConversationTemplate \<Rightarrow> message list \<Rightarrow> render_error + string" where
  "conversation_render T msgs =
     (case render_messages T msgs of
        Inl e \<Rightarrow> Inl e
      | Inr parts \<Rightarrow>
          Inr (join_str (case separator T of None \<Rightarrow> [] | Some c \<Rightarrow> component_content c) parts))"






section \<open>Pieces of a template only append\<close>

lemma chain_le: "chain lo sp hi \<Longrightarrow> lo \<le> hi"
  by (induction lo sp hi rule: chain.induct) auto

lemma chain_append: "chain lo xs mid \<Longrightarrow> chain mid ys hi \<Longrightarrow> chain lo (xs @ ys) hi"
proof (induction lo xs mid rule: chain.induct)
  case (1 lo hi)
  then show ?case by (cases ys) auto
next
  case (2 lo s e sp hi)
  then show ?case by simp
qed

lemma chain_shift: "chain lo sp hi \<Longrightarrow> chain (k + lo) (map (shift k) sp) (k + hi)"
  by (induction lo sp hi rule: chain.induct) (auto simp: shift_def)

lemma chain_widen: "chain lo sp hi \<Longrightarrow> hi \<le> hi' \<Longrightarrow> chain lo sp hi'"
  by (induction lo sp hi rule: chain.induct) auto

lemma append_out_twice:
  "append_out (append_out st t1 sp1) t2 sp2 = append_out st (t1 @ t2) (sp1 @ map (shift (length t1)) sp2)"
  by (simp add: append_out_def shift_def case_prod_unfold add.assoc)

lemma append_out_empty [simp]: "append_out st [] [] = st"
  by (simp add: append_out_def)

lemma emit_append_out: "emit s st = append_out st s []"
  by (cases st) (simp add: emit_def append_out_def)

lemma writes_emit: "writes (emit s)"
  unfolding writes_def by (rule exI[of _ s]) (simp add: emit_append_out)

lemma writes_skip: "writes skip"
  unfolding writes_def by (rule exI[of _ "[]"]) (simp add: skip_def)

lemma writes_comp: "writes f \<Longrightarrow> writes g \<Longrightarrow> writes (\<lambda>st. g (f st))"
  unfolding writes_def
  apply (elim exE)
  subgoal for t1 t2 by (rule exI[of _ "t1 @ t2"]) (simp add: append_out_twice)
  done

lemma seq_Nil: "seq [] = skip"
  by (rule ext) (simp add: seq_def skip_def)

lemma seq_Cons: "seq (f # fs) = (\<lambda>st. seq fs (f st))"
  by (rule ext) (simp add: seq_def)

lemma writes_seq: "(\<And>f. f \<in> set fs \<Longrightarrow> writes f) \<Longrightarrow> writes (seq fs)"
  by (induction fs) (auto simp: seq_Nil seq_Cons writes_skip intro: writes_comp)

lemma appends_writes: "writes f \<Longrightarrow> appends f"
  unfolding writes_def appends_def
  by (elim exE, rule_tac x=t in exI, rule_tac x="[]" in exI) simp

lemma appends_comp: "appends f \<Longrightarrow> appends g \<Longrightarrow> appends (\<lambda>st. g (f st))"
proof -
  assume "appends f" "appends g"
  then obtain t1 sp1 t2 sp2 where
    f: "chain 0 sp1 (length t1)" "\<And>st. f st = append_out st t1 sp1" and
    g: "chain 0 sp2 (length t2)" "\<And>st. g st = append_out st t2 sp2"
    unfolding appends_def by blast
  have "chain (length t1) (map (shift (length t1)) sp2) (length t1 + length t2)"
    using chain_shift[OF g(1), of "length t1"] by simp
  with f(1) have "chain 0 (sp1 @ map (shift (length t1)) sp2) (length (t1 @ t2))"
    by (simp add: chain_append)
  moreover have "\<And>st. g (f st) = append_out st (t1 @ t2) (sp1 @ map (shift (length t1)) sp2)"
    by (simp add: f(2) g(2) append_out_twice)
  ultimately show ?thesis unfolding appends_def by blast
qed

lemma appends_skip: "appends skip"
  by (simp add: appends_writes writes_skip)

lemma appends_emit: "appends (emit s)"
  by (simp add: appends_writes writes_emit)

lemma appends_seq: "(\<And>f. f \<in> set fs \<Longrightarrow> appends f) \<Longrightarrow> appends (seq fs)"
  by (induction fs) (auto simp: seq_Nil seq_Cons appends_skip intro: appends_comp)

lemma fold_Cons_fun: "fold g (x # xs) = (\<lambda>st. fold g xs (g x st))"
  by (rule ext) simp

lemma appends_fold: "(\<And>x. x \<in> set xs \<Longrightarrow> appends (g x)) \<Longrightarrow> appends (fold g xs)"
proof (induction xs)
  case Nil
  have "fold g [] = skip" by (rule ext) (simp add: skip_def)
  then show ?case by (simp add: appends_skip)
next
  case (Cons x xs)
  then show ?case by (auto simp: fold_Cons_fun intro: appends_comp)
qed

lemma appends_generation: "writes f \<Longrightarrow> appends (generation f)"
proof -
  assume "writes f"
  then obtain t where f: "\<And>st. f st = append_out st t []" unfolding writes_def by blast
  have "\<And>st. generation f st = append_out st t [(0, length t)]"
    by (simp add: generation_def f append_out_def shift_def Let_def)
  moreover have "chain 0 [(0, length t)] (length t)" by simp
  ultimately show ?thesis unfolding appends_def by blast
qed


lemma appends_seq_Nil: "appends (seq [])"
  by (simp add: seq_Nil appends_skip)

lemma appends_seq_Cons: "appends f \<Longrightarrow> appends (seq fs) \<Longrightarrow> appends (seq (f # fs))"
  by (simp add: seq_Cons appends_comp)

lemma writes_seq_Nil: "writes (seq [])"
  by (simp add: seq_Nil writes_skip)

lemma writes_seq_Cons: "writes f \<Longrightarrow> writes (seq fs) \<Longrightarrow> writes (seq (f # fs))"
  by (simp add: seq_Cons writes_comp)

lemma appends_if: "appends f \<Longrightarrow> appends g \<Longrightarrow> appends (if c then f else g)"
  by simp

lemma writes_if: "writes f \<Longrightarrow> writes g \<Longrightarrow> writes (if c then f else g)"
  by simp

lemma writes_fold: "(\<And>x. x \<in> set xs \<Longrightarrow> writes (g x)) \<Longrightarrow> writes (fold g xs)"
proof (induction xs)
  case Nil
  have "fold g [] = skip" by (rule ext) (simp add: skip_def)
  then show ?case by (simp add: writes_skip)
next
  case (Cons x xs)
  then show ?case by (auto simp: fold_Cons_fun intro: writes_comp)
qed

lemmas appends_intros =
  appends_seq_Nil appends_seq_Cons appends_if appends_fold appends_emit appends_skip
  appends_generation writes_seq_Nil writes_seq_Cons writes_if writes_emit writes_skip writes_fold

lemma appends_qwen2_5_tool_call: "appends (qwen2_5_tool_call tojson tc)"
  unfolding qwen2_5_tool_call_def Let_def by (intro appends_intros)

lemma appends_qwen2_5_message: "appends (qwen2_5_message tojson msgs i)"
  unfolding qwen2_5_message_def Let_def by (intro appends_intros appends_qwen2_5_tool_call)

lemma appends_qwen2_5_system: "appends (qwen2_5_system tpl tojson ctx)"
  unfolding qwen2_5_system_def Let_def by (intro appends_intros)

lemma appends_qwen3_system: "appends (qwen3_system tojson ctx)"
  unfolding qwen3_system_def Let_def by (intro appends_intros)

lemma writes_qwen3_tool_call: "writes (qwen3_tool_call tojson c tcs i)"
  unfolding qwen3_tool_call_def Let_def
  by (cases "arguments (case tcs ! i of Flat c \<Rightarrow> c | Wrapped f \<Rightarrow> f)")
     (simp_all only: json.case, (intro appends_intros)+)

lemma appends_qwen3_assistant: "appends (qwen3_assistant tojson ns msgs i)"
  unfolding qwen3_assistant_def Let_def
  by (cases "derive_reasoning (msgs ! i)")
     (simp only: prod.case, intro appends_intros writes_qwen3_tool_call)

lemma appends_qwen3_message: "appends (qwen3_message tojson ns msgs i)"
  unfolding qwen3_message_def Let_def by (intro appends_intros appends_qwen3_assistant)

lemma appends_qwen2_5_body: "appends (qwen2_5_body tpl tojson ctx)"
  unfolding qwen2_5_body_def
  by (intro appends_intros appends_qwen2_5_system appends_qwen2_5_message)

lemma appends_qwen3_body: "appends (qwen3_body tojson ctx)"
  unfolding qwen3_body_def Let_def
  by (intro appends_intros appends_qwen3_system appends_qwen3_message)

lemma appends_chain:
  assumes "appends f"
  shows "chain 0 (spans (f \<lparr>buf = [], spans = []\<rparr>)) (length (buf (f \<lparr>buf = [], spans = []\<rparr>)))"
proof -
  from assms obtain t sp where c: "chain 0 sp (length t)" and f: "\<And>st. f st = append_out st t sp"
    unfolding appends_def by blast
  have "map (shift 0) sp = sp" by (induction sp) (auto simp: shift_def)
  then show ?thesis using c by (simp add: f append_out_def)
qed

lemma render_chain: "render tpl tojson ctx = Inr (out, sp) \<Longrightarrow> chain 0 sp (length out)"
  using appends_chain[OF appends_qwen2_5_body, of tpl tojson ctx]
    appends_chain[OF appends_qwen3_body, of tojson ctx]
  by (cases tpl) (auto simp: render_def qwen2_5_render_def qwen3_render_def split: if_splits)


lemma chain_bounds:
  "chain lo sp hi \<Longrightarrow> x \<in> set sp \<Longrightarrow> lo \<le> fst x \<and> fst x \<le> snd x \<and> snd x \<le> hi"
proof (induction lo sp hi rule: chain.induct)
  case (1 lo hi)
  then show ?case by simp
next
  case (2 lo s e sp hi)
  from "2.prems" have c: "chain e sp hi" and le: "lo \<le> s" "s \<le> e" by simp_all
  show ?case
  proof (cases "x = (s, e)")
    case True
    with le chain_le[OF c] show ?thesis by simp
  next
    case False
    with "2.prems" have "x \<in> set sp" by simp
    from "2.IH"[OF c this] le show ?thesis by simp
  qed
qed

lemma chain_sorted_wrt: "chain lo sp hi \<Longrightarrow> sorted_wrt (\<lambda>a b. snd a \<le> fst b) sp"
proof (induction lo sp hi rule: chain.induct)
  case (1 lo hi)
  then show ?case by simp
next
  case (2 lo s e sp hi)
  from "2.prems" have c: "chain e sp hi" by simp
  have "\<forall>y\<in>set sp. e \<le> fst y" using chain_bounds[OF c] by blast
  with "2.IH"[OF c] show ?case by simp
qed

lemma chain_sorted_fst: "chain lo sp hi \<Longrightarrow> sorted (map fst sp)"
proof (induction lo sp hi rule: chain.induct)
  case (1 lo hi)
  then show ?case by simp
next
  case (2 lo s e sp hi)
  from "2.prems" have c: "chain e sp hi" and le: "s \<le> e" by simp_all
  have "\<forall>y\<in>set sp. s \<le> fst y" using chain_bounds[OF c] le by fastforce
  with "2.IH"[OF c] show ?case by simp
qed

lemma slice_drop: "a \<le> b \<Longrightarrow> slice a b s @ drop b s = drop a s"
proof -
  assume "a \<le> b"
  then have "drop b s = drop (b - a) (drop a s)" by simp
  then show ?thesis unfolding slice_def by (metis append_take_drop_id)
qed

lemma concat_segments: "chain lo sp hi \<Longrightarrow> concat (segments lo out sp) = drop lo out"
proof (induction lo sp hi rule: chain.induct)
  case (1 lo hi)
  then show ?case by simp
next
  case (2 lo s e sp hi)
  from "2.prems" have c: "chain e sp hi" and le: "lo \<le> s" "s \<le> e" by simp_all
  have "concat (segments lo out ((s, e) # sp)) = slice lo s out @ slice s e out @ drop e out"
    using "2.IH"[OF c] by simp
  also have "\<dots> = slice lo s out @ drop s out" by (simp add: slice_drop[OF le(2)])
  also have "\<dots> = drop lo out" by (rule slice_drop[OF le(1)])
  finally show ?case .
qed

lemma buf_emit [simp]: "buf (emit s st) = buf st @ s"
  by (simp add: emit_def)

lemma spans_emit [simp]: "spans (emit s st) = spans st"
  by (simp add: emit_def)

lemma skip_simp [simp]: "skip st = st"
  by (simp add: skip_def)

lemma seq_simps [simp]: "seq [] st = st" "seq (f # fs) st = seq fs (f st)"
  by (simp_all add: seq_def)

lemma buf_generation [simp]: "buf (generation f st) = buf (f st)"
  by (simp add: generation_def Let_def)

lemma spans_generation [simp]:
  "spans (generation f st) = spans (f st) @ [(length (buf st), length (buf (f st)))]"
  by (simp add: generation_def Let_def)





lemma tool_run_spans:
  assumes step: "\<And>k st. role (msgs ! k) = ''tool'' \<Longrightarrow> spans (f k st) = spans st"
    and tools: "\<forall>k\<in>{i..j}. role (msgs ! k) = ''tool''"
  shows "spans (fold f [i..<Suc j] st) = spans st"
  using tools
proof (induction j)
  case 0
  then show ?case by (cases "i = 0") (simp_all add: step)
next
  case (Suc j)
  show ?case
  proof (cases "i \<le> Suc j")
    case True
    with Suc.prems have t: "role (msgs ! Suc j) = ''tool''" by simp
    from Suc.prems have "\<forall>k\<in>{i..j}. role (msgs ! k) = ''tool''" by simp
    from Suc.IH[OF this] True show ?thesis by (simp add: step[OF t])
  next
    case False
    then show ?thesis by simp
  qed
qed

lemma qwen3_system_flag:
  "qwen3_system tojson (ctx\<lparr>add_generation_prompt := b\<rparr>) = qwen3_system tojson ctx"
  by (simp add: qwen3_system_def Let_def cong: if_cong)

lemma qwen3_body_prompt:
  \<open>qwen3_body tojson (ctx\<lparr>add_generation_prompt := True\<rparr>) st =
     emit (''<|im_start|>assistant\<newline>''
           @ (if enable_thinking ctx = Value False then ''<think>\<newline>\<newline></think>\<newline>\<newline>'' else []))
       (qwen3_body tojson (ctx\<lparr>add_generation_prompt := False\<rparr>) st)\<close>
  by (simp add: qwen3_body_def Let_def qwen3_system_flag emit_def)

lemma chain_list_all:
  "chain lo sp hi \<Longrightarrow> list_all (\<lambda>(s, e). s \<le> e \<and> e \<le> hi) sp"
  using chain_bounds[of lo sp hi] by (fastforce simp: list_all_iff)

lemma writes_qwen2_5_system: "writes (qwen2_5_system tpl tojson ctx)"
  unfolding qwen2_5_system_def Let_def by (intro appends_intros)

lemma writes_qwen3_system: "writes (qwen3_system tojson ctx)"
  unfolding qwen3_system_def Let_def by (intro appends_intros)

lemma writesE:
  assumes "writes f"
  obtains t where "\<And>st. buf (f st) = buf st @ t" "\<And>st. spans (f st) = spans st"
  using assms unfolding writes_def append_out_def by auto

lemma slice_middle: "slice (length a) (length a + length b) (a @ b @ c) = b"
  by (simp add: slice_def)

lemma render_qwen2_5:
  "tpl \<noteq> QWEN3_TEMPLATE \<Longrightarrow> render tpl tojson ctx =
     (case qwen2_5_render tpl tojson ctx \<lparr>buf = [], spans = []\<rparr> of
        Inl e \<Rightarrow> Inl e | Inr st \<Rightarrow> Inr (buf st, spans st))"
  by (cases tpl) (simp_all add: render_def)

lemma render_qwen3:
  "render QWEN3_TEMPLATE tojson ctx =
     (case qwen3_render tojson ctx \<lparr>buf = [], spans = []\<rparr> of
        Inl e \<Rightarrow> Inl e | Inr st \<Rightarrow> Inr (buf st, spans st))"
  by (simp add: render_def)

lemma hi_no_think: \<open>\<not> sublist ''</think>'' ''hi''\<close>
  by code_simp

lemma derive_reasoning_hi: "content m = ''hi'' \<Longrightarrow> fst (derive_reasoning m) = ''hi''"
  by (cases "reasoning_content m")
     (simp_all add: derive_reasoning_def Let_def str_in_def hi_no_think)

lemma last_query_scan_single:
  "role m \<noteq> ''user'' \<Longrightarrow> last_query_index (last_query_scan [m]) = 0"
  by (simp add: last_query_scan_def reverse_visits_def scan_message_def)

lemma reverse_visits_nth:
  "k < length msgs \<Longrightarrow>
     reverse_visits msgs ! k = (int (length msgs - 1 - k), msgs ! (length msgs - 1 - k))"
proof -
  assume k: "k < length msgs"
  then have "rev msgs ! k = msgs ! (length msgs - Suc k)" by (simp add: rev_nth)
  moreover have "int (length msgs) - 1 - int k = int (length msgs - 1 - k)" using k by linarith
  moreover have "length msgs - 1 - k = length msgs - Suc k" by simp
  ultimately show ?thesis using k by (simp add: reverse_visits_def)
qed

lemma length_reverse_visits: "length (reverse_visits msgs) = length msgs"
  by (simp add: reverse_visits_def)

lemma scan_message_step:
  "scan_message (int j, m) ns =
     (if multi_step_tool ns \<and> true_query m
      then ns\<lparr>multi_step_tool := False, last_query_index := int j\<rparr> else ns)"
  unfolding scan_message_def true_query_def by simp

lemma scannedI_found:
  assumes "\<not> multi_step_tool ns" "last_query_index ns = int j" "k \<le> j" "j < length msgs"
    "true_query (msgs ! j)" "\<forall>j'. j < j' \<and> j' < length msgs \<longrightarrow> \<not> true_query (msgs ! j')"
  shows "scanned msgs k ns"
proof -
  have "\<exists>j. k \<le> j \<and> j < length msgs \<and> true_query (msgs ! j)" using assms(3-5) by blast
  moreover have "\<exists>j. last_query_index ns = int j \<and> k \<le> j \<and> j < length msgs
      \<and> true_query (msgs ! j) \<and> (\<forall>j'. j < j' \<and> j' < length msgs \<longrightarrow> \<not> true_query (msgs ! j'))"
    using assms(2-6) by blast
  ultimately show ?thesis unfolding scanned_def using assms(1) by simp
qed

lemma scannedI_none:
  assumes "multi_step_tool ns" "last_query_index ns = int (length msgs) - 1"
    "\<forall>j. k \<le> j \<and> j < length msgs \<longrightarrow> \<not> true_query (msgs ! j)"
  shows "scanned msgs k ns"
proof -
  have "\<not> (\<exists>j. k \<le> j \<and> j < length msgs \<and> true_query (msgs ! j))" using assms(3) by blast
  then show ?thesis unfolding scanned_def using assms(1,2) by simp
qed

lemma scanned_cases:
  assumes "scanned msgs k ns"
  obtains (found) j where "\<not> multi_step_tool ns" "last_query_index ns = int j" "k \<le> j"
      "j < length msgs" "true_query (msgs ! j)"
      "\<forall>j'. j < j' \<and> j' < length msgs \<longrightarrow> \<not> true_query (msgs ! j')"
    | (none) "multi_step_tool ns" "last_query_index ns = int (length msgs) - 1"
      "\<forall>j. k \<le> j \<and> j < length msgs \<longrightarrow> \<not> true_query (msgs ! j)"
proof (cases "\<exists>j. k \<le> j \<and> j < length msgs \<and> true_query (msgs ! j)")
  case True
  with assms have "\<not> multi_step_tool ns"
    and "\<exists>j. last_query_index ns = int j \<and> k \<le> j \<and> j < length msgs \<and> true_query (msgs ! j)
              \<and> (\<forall>j'. j < j' \<and> j' < length msgs \<longrightarrow> \<not> true_query (msgs ! j'))"
    unfolding scanned_def by simp_all
  then show ?thesis using found by blast
next
  case False
  with assms have "multi_step_tool ns" "last_query_index ns = int (length msgs) - 1"
    unfolding scanned_def by simp_all
  moreover from False have "\<forall>j. k \<le> j \<and> j < length msgs \<longrightarrow> \<not> true_query (msgs ! j)" by blast
  ultimately show ?thesis using none by blast
qed

lemma scanned_step:
  assumes sc: "scanned msgs (Suc k) ns" and k: "k < length msgs"
  shows "scanned msgs k (scan_message (int k, msgs ! k) ns)"
  using sc
proof (cases rule: scanned_cases)
  case (found j)
  have "scan_message (int k, msgs ! k) ns = ns" using found(1) by (simp add: scan_message_step)
  moreover have "k \<le> j" using found(3) by simp
  ultimately show ?thesis using found by (simp add: scannedI_found[of ns j k msgs])
next
  case none
  show ?thesis
  proof (cases "true_query (msgs ! k)")
    case True
    let ?ns = "ns\<lparr>multi_step_tool := False, last_query_index := int k\<rparr>"
    have e: "scan_message (int k, msgs ! k) ns = ?ns"
      using none(1) True by (simp add: scan_message_step)
    have "\<forall>j'. k < j' \<and> j' < length msgs \<longrightarrow> \<not> true_query (msgs ! j')"
      using none(3) by (simp add: Suc_le_eq)
    then have "scanned msgs k ?ns"
      using True k by (intro scannedI_found[of ?ns k k msgs]) simp_all
    then show ?thesis by (simp only: e)
  next
    case False
    have e: "scan_message (int k, msgs ! k) ns = ns" using False by (simp add: scan_message_step)
    have "\<forall>j. k \<le> j \<and> j < length msgs \<longrightarrow> \<not> true_query (msgs ! j)"
    proof (intro allI impI)
      fix j assume "k \<le> j \<and> j < length msgs"
      then show "\<not> true_query (msgs ! j)"
        using False none(3) by (cases "j = k") (simp_all add: Suc_le_eq)
    qed
    then show ?thesis unfolding e using none(1,2) by (intro scannedI_none)
  qed
qed

lemma scan_invariant:
  "m \<le> length msgs \<Longrightarrow>
     scanned msgs (length msgs - m)
       (fold scan_message (take m (reverse_visits msgs))
          \<lparr>multi_step_tool = True, last_query_index = int (length msgs) - 1\<rparr>)"
proof (induction m)
  case 0
  have "\<forall>j. length msgs \<le> j \<and> j < length msgs \<longrightarrow> \<not> true_query (msgs ! j)" by auto
  then have "scanned msgs (length msgs)
      \<lparr>multi_step_tool = True, last_query_index = int (length msgs) - 1\<rparr>"
    by (intro scannedI_none) simp_all
  then show ?case by simp
next
  case (Suc m)
  let ?n = "length msgs"
  let ?ns = "fold scan_message (take m (reverse_visits msgs))
          \<lparr>multi_step_tool = True, last_query_index = int ?n - 1\<rparr>"
  from Suc.prems have m: "m < ?n" by simp
  have k: "?n - 1 - m = ?n - Suc m" by simp
  have s: "Suc (?n - Suc m) = ?n - m" using m by simp
  have IH: "scanned msgs (Suc (?n - Suc m)) ?ns" using Suc.IH m by (simp add: s)
  have lt: "?n - Suc m < ?n" using m by simp
  have t: "take (Suc m) (reverse_visits msgs)
      = take m (reverse_visits msgs) @ [(int (?n - Suc m), msgs ! (?n - Suc m))]"
    using m by (simp add: take_Suc_conv_app_nth length_reverse_visits reverse_visits_nth k)
  show ?case unfolding t using scanned_step[OF IH lt] by simp
qed

lemma last_query_scan_scanned: "scanned msgs 0 (last_query_scan msgs)"
  using scan_invariant[of "length msgs" msgs]
  by (simp add: last_query_scan_def length_reverse_visits)

lemma buf_fold:
  assumes "\<And>k st. buf (f k st) = buf st @ T k"
  shows "buf (fold f ks st) = buf st @ concat (map T ks)"
  by (induction ks arbitrary: st) (simp_all add: assms)

lemma spans_fold:
  assumes "\<And>k st. spans (f k st) = spans st"
  shows "spans (fold f ks st) = spans st"
  by (induction ks arbitrary: st) (simp_all add: assms)

lemma buf_qwen3_tool_call:
  "buf (qwen3_tool_call tojson c tcs k st) = buf st @ tool_call_text tojson c tcs k"
  unfolding qwen3_tool_call_def tool_call_text_def Let_def
  by (cases "arguments (case tcs ! k of Flat c \<Rightarrow> c | Wrapped f \<Rightarrow> f)") auto


lemma buf_qwen3_assistant:
  assumes "role (msgs ! i) = ''assistant''"
  shows "buf (qwen3_message tojson ns msgs i st) =
           buf st @ assistant_head (last_query_index ns) msgs i
           @ concat (map (tool_call_text tojson (fst (derive_reasoning (msgs ! i)))
                            (tool_calls (msgs ! i)))
                       [0..<length (tool_calls (msgs ! i))])
           @ ''<|im_end|>\<newline>''"
proof -
  obtain c r where d: "derive_reasoning (msgs ! i) = (c, r)" by (cases "derive_reasoning (msgs ! i)")
  have f: "buf (fold (qwen3_tool_call tojson c (tool_calls (msgs ! i))) ks st')
      = buf st' @ concat (map (tool_call_text tojson c (tool_calls (msgs ! i))) ks)" for ks st'
    by (rule buf_fold) (rule buf_qwen3_tool_call)
  show ?thesis
    using assms d
    by (simp add: qwen3_message_def qwen3_assistant_def assistant_head_def Let_def f)
qed

lemma split_user: \<open>split_str ''<|im_start|>user\<newline>{{content}}<|im_end|>\<newline>'' ''{{content}}''
    = [''<|im_start|>user\<newline>'', ''<|im_end|>\<newline>'']\<close>
  by code_simp

lemma split_placeholder: \<open>split_str ''{{content}}'' ''{{content}}'' = [[], []]\<close>
  by code_simp


























section \<open>Claims\<close>

text \<open>
  C4. For every conversation and each of the templates with generation blocks, the spans of
  a render are half-open pairs inside the output, in non-decreasing order of their starts
  and pairwise non-overlapping (a span ends at or before the start of every later one);
  the gaps and the spans, concatenated in order, give back the output.
\<close>

theorem generation_spans_partition:
  assumes "render tpl tojson ctx = Inr (out, sp)"
  shows "(\<forall>(s, e) \<in> set sp. s \<le> e \<and> e \<le> length out)
       \<and> sorted (map fst sp)
       \<and> (\<forall>i j. i < j \<and> j < length sp \<longrightarrow> snd (sp ! i) \<le> fst (sp ! j))
       \<and> concat (segments 0 out sp) = out"
proof -
  have c: "chain 0 sp (length out)" by (rule render_chain[OF assms])
  have "\<forall>(s, e) \<in> set sp. s \<le> e \<and> e \<le> length out"
    using chain_bounds[OF c] by fastforce
  moreover have "sorted (map fst sp)" by (rule chain_sorted_fst[OF c])
  moreover have "\<forall>i j. i < j \<and> j < length sp \<longrightarrow> snd (sp ! i) \<le> fst (sp ! j)"
    using chain_sorted_wrt[OF c] by (simp add: sorted_wrt_iff_nth_less)
  moreover have "concat (segments 0 out sp) = out"
    using concat_segments[OF c, of out] by simp
  ultimately show ?thesis by blast
qed


theorem generation_spans_partition_witness:
  "render QWEN2_5_1M_TEMPLATE (\<lambda>_. ''null'') example_tool_conversation
     = Inr (example_tool_rendered, [(108, 110), (110, 168), (168, 179), (263, 275)])
   \<and> 275 \<le> length example_tool_rendered
   \<and> sorted (map fst [(108, 110), (110, 168), (168, 179), (263::nat, 275::nat)])
   \<and> concat (segments 0 example_tool_rendered [(108, 110), (110, 168), (168, 179), (263, 275)])
       = example_tool_rendered"
proof -
  have r: "render QWEN2_5_1M_TEMPLATE (\<lambda>_. ''null'') example_tool_conversation
     = Inr (example_tool_rendered, [(108, 110), (110, 168), (168, 179), (263, 275)])"
    by code_simp
  from generation_spans_partition[OF r] r show ?thesis by simp
qed




text \<open>
  C10. For every context, the Qwen3 render with \<^verbatim>\<open>add_generation_prompt\<close> set is the render
  without it followed by \<^verbatim>\<open><|im_start|>assistant\<close> and a newline, and then by the empty
  think block exactly when \<^verbatim>\<open>enable_thinking\<close> is defined and false; the span list is the same
  and every span ends inside the output of the render without the flag, so the appended
  text is in no span. Both renders succeed on every context with a message; with no message
  both raise on the first read of \<^verbatim>\<open>messages[0]\<close>.
\<close>

theorem generation_prompt_is_suffix:
  \<open>(messages ctx = [] \<longrightarrow>
      render QWEN3_TEMPLATE tojson (ctx\<lparr>add_generation_prompt := False\<rparr>) = Inl UndefinedError
      \<and> render QWEN3_TEMPLATE tojson (ctx\<lparr>add_generation_prompt := True\<rparr>) = Inl UndefinedError)
   \<and> (messages ctx \<noteq> [] \<longrightarrow>
      (\<exists>out sp.
         render QWEN3_TEMPLATE tojson (ctx\<lparr>add_generation_prompt := False\<rparr>) = Inr (out, sp)
         \<and> render QWEN3_TEMPLATE tojson (ctx\<lparr>add_generation_prompt := True\<rparr>) =
             Inr (out @ ''<|im_start|>assistant\<newline>''
                    @ (if enable_thinking ctx = Value False
                       then ''<think>\<newline>\<newline></think>\<newline>\<newline>'' else []),
                  sp)
         \<and> list_all (\<lambda>(s, e). s \<le> e \<and> e \<le> length out) sp))\<close>
proof (intro conjI impI)
  assume "messages ctx = []"
  then show "render QWEN3_TEMPLATE tojson (ctx\<lparr>add_generation_prompt := False\<rparr>) = Inl UndefinedError"
    and "render QWEN3_TEMPLATE tojson (ctx\<lparr>add_generation_prompt := True\<rparr>) = Inl UndefinedError"
    by (simp_all add: render_def qwen3_render_def)
next
  assume ne: "messages ctx \<noteq> []"
  define st where "st = qwen3_body tojson (ctx\<lparr>add_generation_prompt := False\<rparr>) \<lparr>buf = [], spans = []\<rparr>"
  have f: "render QWEN3_TEMPLATE tojson (ctx\<lparr>add_generation_prompt := False\<rparr>) = Inr (buf st, spans st)"
    using ne by (simp add: render_def qwen3_render_def st_def)
  then have "chain 0 (spans st) (length (buf st))" by (rule render_chain)
  then have b: "list_all (\<lambda>(s, e). s \<le> e \<and> e \<le> length (buf st)) (spans st)"
    by (rule chain_list_all)
  have t: "render QWEN3_TEMPLATE tojson (ctx\<lparr>add_generation_prompt := True\<rparr>) =
             Inr (buf st @ ''<|im_start|>assistant\<newline>''
                    @ (if enable_thinking ctx = Value False
                       then ''<think>\<newline>\<newline></think>\<newline>\<newline>'' else []),
                  spans st)"
    using ne by (simp add: render_def qwen3_render_def qwen3_body_prompt st_def)
  from f t b show "\<exists>out sp.
         render QWEN3_TEMPLATE tojson (ctx\<lparr>add_generation_prompt := False\<rparr>) = Inr (out, sp)
         \<and> render QWEN3_TEMPLATE tojson (ctx\<lparr>add_generation_prompt := True\<rparr>) =
             Inr (out @ ''<|im_start|>assistant\<newline>''
                    @ (if enable_thinking ctx = Value False
                       then ''<think>\<newline>\<newline></think>\<newline>\<newline>'' else []),
                  sp)
         \<and> list_all (\<lambda>(s, e). s \<le> e \<and> e \<le> length out) sp"
    by blast
qed

theorem generation_prompt_is_suffix_witness:
  \<open>render QWEN3_TEMPLATE (\<lambda>_. ''null'') (example_prompt_context\<lparr>add_generation_prompt := False\<rparr>)
     = Inr (''<|im_start|>user\<newline>q<|im_end|>\<newline><|im_start|>assistant\<newline>a<|im_end|>\<newline><|im_start|>user\<newline>p<|im_end|>\<newline>'',
            [(29, 63)])
   \<and> render QWEN3_TEMPLATE (\<lambda>_. ''null'') (example_prompt_context\<lparr>add_generation_prompt := True\<rparr>)
     = Inr (''<|im_start|>user\<newline>q<|im_end|>\<newline><|im_start|>assistant\<newline>a<|im_end|>\<newline><|im_start|>user\<newline>p<|im_end|>\<newline><|im_start|>assistant\<newline><think>\<newline>\<newline></think>\<newline>\<newline>'',
            [(29, 63)])\<close>
proof -
  have ne: "messages example_prompt_context \<noteq> []"
    and et: "enable_thinking example_prompt_context = Value False"
    by (simp_all add: example_prompt_context_def)
  have r: \<open>render QWEN3_TEMPLATE (\<lambda>_. ''null'') (example_prompt_context\<lparr>add_generation_prompt := False\<rparr>)
     = Inr (''<|im_start|>user\<newline>q<|im_end|>\<newline><|im_start|>assistant\<newline>a<|im_end|>\<newline><|im_start|>user\<newline>p<|im_end|>\<newline>'',
            [(29, 63)])\<close>
    by code_simp
  from generation_prompt_is_suffix[of example_prompt_context "\<lambda>_. ''null''", THEN conjunct2, rule_format, OF ne]
  obtain out sp where
    a: "render QWEN3_TEMPLATE (\<lambda>_. ''null'') (example_prompt_context\<lparr>add_generation_prompt := False\<rparr>) = Inr (out, sp)"
    and b: \<open>render QWEN3_TEMPLATE (\<lambda>_. ''null'') (example_prompt_context\<lparr>add_generation_prompt := True\<rparr>) =
             Inr (out @ ''<|im_start|>assistant\<newline>''
                    @ (if enable_thinking example_prompt_context = Value False
                       then ''<think>\<newline>\<newline></think>\<newline>\<newline>'' else []),
                  sp)\<close>
    by blast
  from a r have o: \<open>out = ''<|im_start|>user\<newline>q<|im_end|>\<newline><|im_start|>assistant\<newline>a<|im_end|>\<newline><|im_start|>user\<newline>p<|im_end|>\<newline>''\<close>
    and s: "sp = [(29, 63)]" by simp_all
  from b et have \<open>render QWEN3_TEMPLATE (\<lambda>_. ''null'') (example_prompt_context\<lparr>add_generation_prompt := True\<rparr>) =
             Inr (out @ ''<|im_start|>assistant\<newline>'' @ ''<think>\<newline>\<newline></think>\<newline>\<newline>'', sp)\<close>
    by simp
  with r show ?thesis unfolding o s by simp
qed

text \<open>
  C6. A conversation of one assistant message with content \<^verbatim>\<open>hi\<close> and no tool calls renders,
  under each template of the Qwen2.5 family, to an output containing \<^verbatim>\<open>hi\<close> with exactly one
  generation span, whose text is what the generation block produced: the content and the
  end-of-turn marker \<^verbatim>\<open><|im_end|>\<close> with its newline. Under Qwen3 the block holds the whole
  assistant turn, and the one span is that turn. A conversation of a system message and a
  user message renders with no span under every template.
\<close>

theorem single_assistant_one_span:
  \<open>(messages ctx = [m] \<and> role m = ''assistant'' \<and> content m = ''hi'' \<and> tool_calls m = []
      \<and> tpl \<noteq> QWEN3_TEMPLATE \<longrightarrow>
       (\<exists>out s e. render tpl tojson ctx = Inr (out, [(s, e)])
           \<and> slice s e out = ''hi<|im_end|>\<newline>'' \<and> sublist ''hi'' out))
   \<and> (messages ctx = [m] \<and> role m = ''assistant'' \<and> content m = ''hi'' \<and> tool_calls m = []
       \<longrightarrow>
       (\<exists>out s e. render QWEN3_TEMPLATE tojson ctx = Inr (out, [(s, e)])
           \<and> slice s e out = ''<|im_start|>assistant\<newline>hi<|im_end|>\<newline>'' \<and> sublist ''hi'' out))
   \<and> (messages ctx = [m1, m2] \<and> role m1 = ''system'' \<and> role m2 = ''user'' \<longrightarrow>
       (\<exists>out. render tpl tojson ctx = Inr (out, [])))\<close>
proof (intro conjI impI)
  assume a: "messages ctx = [m] \<and> role m = ''assistant'' \<and> content m = ''hi'' \<and> tool_calls m = []
      \<and> tpl \<noteq> QWEN3_TEMPLATE"
  obtain h where h: "\<And>st. buf (qwen2_5_system tpl tojson ctx st) = buf st @ h"
      "\<And>st. spans (qwen2_5_system tpl tojson ctx st) = spans st"
    using writesE[OF writes_qwen2_5_system[of tpl tojson ctx]] by blast
  define pre where "pre = h @ ''<|im_start|>assistant\<newline>''"
  define post where "post = (if add_generation_prompt ctx then ''<|im_start|>assistant\<newline>'' else [])"
  have "render tpl tojson ctx
      = Inr (pre @ ''hi<|im_end|>\<newline>'' @ post, [(length pre, length pre + length ''hi<|im_end|>\<newline>'')])"
    using a by (simp add: render_qwen2_5 qwen2_5_render_def qwen2_5_body_def
        qwen2_5_message_def h pre_def post_def)
  moreover have "slice (length pre) (length pre + length ''hi<|im_end|>\<newline>'')
      (pre @ ''hi<|im_end|>\<newline>'' @ post) = ''hi<|im_end|>\<newline>''"
    by (rule slice_middle)
  moreover have "sublist ''hi'' (pre @ ''hi<|im_end|>\<newline>'' @ post)"
  proof -
    have "pre @ ''hi<|im_end|>\<newline>'' @ post = pre @ ''hi'' @ (''<|im_end|>\<newline>'' @ post)" by simp
    then show ?thesis unfolding sublist_def by blast
  qed
  ultimately show "\<exists>out s e. render tpl tojson ctx = Inr (out, [(s, e)])
           \<and> slice s e out = ''hi<|im_end|>\<newline>'' \<and> sublist ''hi'' out"
    by blast
next
  assume a: "messages ctx = [m] \<and> role m = ''assistant'' \<and> content m = ''hi'' \<and> tool_calls m = []"
  obtain h where h: "\<And>st. buf (qwen3_system tojson ctx st) = buf st @ h"
      "\<And>st. spans (qwen3_system tojson ctx st) = spans st"
    using writesE[OF writes_qwen3_system[of tojson ctx]] by blast
  define post where "post = (if add_generation_prompt ctx then ''<|im_start|>assistant\<newline>''
    @ (if enable_thinking ctx = Value False then ''<think>\<newline>\<newline></think>\<newline>\<newline>'' else []) else [])"
  from a have d: "fst (derive_reasoning m) = ''hi''" by (simp add: derive_reasoning_hi)
  from a have l: "last_query_index (last_query_scan [m]) = 0"
    by (simp add: last_query_scan_single)
  have "render QWEN3_TEMPLATE tojson ctx
      = Inr (h @ ''<|im_start|>assistant\<newline>hi<|im_end|>\<newline>'' @ post,
             [(length h, length h + length ''<|im_start|>assistant\<newline>hi<|im_end|>\<newline>'')])"
    using a d l by (cases "derive_reasoning m")
      (simp add: render_qwen3 qwen3_render_def qwen3_body_def qwen3_message_def
        qwen3_assistant_def h post_def Let_def)
  moreover have "slice (length h) (length h + length ''<|im_start|>assistant\<newline>hi<|im_end|>\<newline>'')
      (h @ ''<|im_start|>assistant\<newline>hi<|im_end|>\<newline>'' @ post) = ''<|im_start|>assistant\<newline>hi<|im_end|>\<newline>''"
    by (rule slice_middle)
  moreover have "sublist ''hi'' (h @ ''<|im_start|>assistant\<newline>hi<|im_end|>\<newline>'' @ post)"
  proof -
    have "h @ ''<|im_start|>assistant\<newline>hi<|im_end|>\<newline>'' @ post
        = (h @ ''<|im_start|>assistant\<newline>'') @ ''hi'' @ (''<|im_end|>\<newline>'' @ post)" by simp
    then show ?thesis unfolding sublist_def by blast
  qed
  ultimately show "\<exists>out s e. render QWEN3_TEMPLATE tojson ctx = Inr (out, [(s, e)])
           \<and> slice s e out = ''<|im_start|>assistant\<newline>hi<|im_end|>\<newline>'' \<and> sublist ''hi'' out"
    by blast
next
  assume a: "messages ctx = [m1, m2] \<and> role m1 = ''system'' \<and> role m2 = ''user''"
  have h: "\<And>st. spans (qwen2_5_system tpl tojson ctx st) = spans st"
    using writesE[OF writes_qwen2_5_system[of tpl tojson ctx]] by metis
  have h3: "\<And>st. spans (qwen3_system tojson ctx st) = spans st"
    using writesE[OF writes_qwen3_system[of tojson ctx]] by metis
  show "\<exists>out. render tpl tojson ctx = Inr (out, [])"
    using a by (cases "tpl = QWEN3_TEMPLATE")
      (simp_all add: render_qwen2_5 render_qwen3 qwen2_5_render_def qwen2_5_body_def
        qwen2_5_message_def h qwen3_render_def qwen3_body_def qwen3_message_def h3 Let_def
        numeral_2_eq_2)
qed

theorem single_assistant_one_span_witness:
  \<open>(\<exists>out s e.
      render QWEN2_5_TEMPLATE (\<lambda>_. ''null'')
        \<lparr>messages = [\<lparr>role = ''assistant'', content = ''hi'', tool_calls = [],
                       reasoning_content = Undefined\<rparr>],
         tools = [], add_generation_prompt = False, enable_thinking = Undefined\<rparr>
        = Inr (out, [(s, e)])
      \<and> slice s e out = ''hi<|im_end|>\<newline>'' \<and> sublist ''hi'' out)
   \<and> (\<exists>out.
      render QWEN2_5_TEMPLATE (\<lambda>_. ''null'')
        \<lparr>messages = [\<lparr>role = ''system'', content = ''s'', tool_calls = [],
                       reasoning_content = Undefined\<rparr>,
                     \<lparr>role = ''user'', content = ''u'', tool_calls = [],
                       reasoning_content = Undefined\<rparr>],
         tools = [], add_generation_prompt = False, enable_thinking = Undefined\<rparr>
        = Inr (out, []))\<close>
  using single_assistant_one_span[of
      "\<lparr>messages = [\<lparr>role = ''assistant'', content = ''hi'', tool_calls = [],
                       reasoning_content = Undefined\<rparr>],
         tools = [], add_generation_prompt = False, enable_thinking = Undefined\<rparr>"
      "\<lparr>role = ''assistant'', content = ''hi'', tool_calls = [], reasoning_content = Undefined\<rparr>"
      QWEN2_5_TEMPLATE "\<lambda>_. ''null''", THEN conjunct1]
    single_assistant_one_span[of
      "\<lparr>messages = [\<lparr>role = ''system'', content = ''s'', tool_calls = [],
                       reasoning_content = Undefined\<rparr>,
                     \<lparr>role = ''user'', content = ''u'', tool_calls = [],
                       reasoning_content = Undefined\<rparr>],
         tools = [], add_generation_prompt = False, enable_thinking = Undefined\<rparr>"
      _ QWEN2_5_TEMPLATE "\<lambda>_. ''null''"
      "\<lparr>role = ''system'', content = ''s'', tool_calls = [], reasoning_content = Undefined\<rparr>"
      "\<lparr>role = ''user'', content = ''u'', tool_calls = [], reasoning_content = Undefined\<rparr>",
      THEN conjunct2, THEN conjunct2]
  by simp

text \<open>
  C1 (as amended). In Qwen3 the reverse scan leaves in \<^verbatim>\<open>ns.last_query_index\<close> the index of
  the last true user query (a user message whose content does not both start with
  \<^verbatim>\<open><tool_response>\<close> and end with \<^verbatim>\<open></tool_response>\<close>), or the last index when there is
  none. An assistant message at an index strictly greater than it, when it is the final
  message or its reasoning content is non-empty, is rendered with the think block: the
  reasoning stripped of surrounding newlines between \<^verbatim>\<open><think>\<close> and \<^verbatim>\<open></think>\<close>, then the
  content stripped of leading newlines. Every other assistant message is rendered as the
  turn opening and its content, with no think block.
\<close>

theorem think_block_after_last_query:
  assumes "i < length msgs" and "role (msgs ! i) = ''assistant''"
    and "derive_reasoning (msgs ! i) = (c, r)"
    and "lqi = last_query_index (last_query_scan msgs)"
  shows \<open>(\<forall>j. lqi < int j \<and> j < length msgs \<longrightarrow> \<not> true_query (msgs ! j))
       \<and> ((\<exists>j. j < length msgs \<and> true_query (msgs ! j)) \<longrightarrow>
            0 \<le> lqi \<and> nat lqi < length msgs \<and> true_query (msgs ! nat lqi))
       \<and> ((\<forall>j. j < length msgs \<longrightarrow> \<not> true_query (msgs ! j)) \<longrightarrow> lqi = int (length msgs) - 1)
       \<and> buf (qwen3_message tojson (last_query_scan msgs) msgs i st) =
           buf st
           @ (if lqi < int i \<and> (i + 1 = length msgs \<or> r \<noteq> [])
              then ''<|im_start|>assistant\<newline><think>\<newline>'' @ strip r ''\<newline>''
                   @ ''\<newline></think>\<newline>\<newline>'' @ lstrip c ''\<newline>''
              else ''<|im_start|>assistant\<newline>'' @ c)
           @ concat (map (tool_call_text tojson c (tool_calls (msgs ! i)))
                       [0..<length (tool_calls (msgs ! i))])
           @ ''<|im_end|>\<newline>''\<close>
proof -
  have sc: "scanned msgs 0 (last_query_scan msgs)" by (rule last_query_scan_scanned)
  have scan: "(\<forall>j. lqi < int j \<and> j < length msgs \<longrightarrow> \<not> true_query (msgs ! j))
       \<and> ((\<exists>j. j < length msgs \<and> true_query (msgs ! j)) \<longrightarrow>
            0 \<le> lqi \<and> nat lqi < length msgs \<and> true_query (msgs ! nat lqi))
       \<and> ((\<forall>j. j < length msgs \<longrightarrow> \<not> true_query (msgs ! j)) \<longrightarrow> lqi = int (length msgs) - 1)"
    using sc
  proof (cases rule: scanned_cases)
    case (found j)
    from found(2) assms(4) have l: "lqi = int j" by simp
    then have "nat lqi = j" by simp
    with l found show ?thesis by auto
  next
    case none
    from none(2) assms(4) have l: "lqi = int (length msgs) - 1" by simp
    have "\<forall>j. j < length msgs \<longrightarrow> \<not> true_query (msgs ! j)" using none(3) by simp
    with l show ?thesis by auto
  qed
  have "buf (qwen3_message tojson (last_query_scan msgs) msgs i st) =
           buf st
           @ (if lqi < int i \<and> (i + 1 = length msgs \<or> r \<noteq> [])
              then ''<|im_start|>assistant\<newline><think>\<newline>'' @ strip r ''\<newline>''
                   @ ''\<newline></think>\<newline>\<newline>'' @ lstrip c ''\<newline>''
              else ''<|im_start|>assistant\<newline>'' @ c)
           @ concat (map (tool_call_text tojson c (tool_calls (msgs ! i)))
                       [0..<length (tool_calls (msgs ! i))])
           @ ''<|im_end|>\<newline>''"
    using buf_qwen3_assistant[OF assms(2), of tojson "last_query_scan msgs" st] assms(3,4)
    by (simp add: assistant_head_def)
  with scan show ?thesis by blast
qed

theorem think_block_after_last_query_witness:
  \<open>last_query_index (last_query_scan example_reasoning_conversation) = 0
   \<and> buf (qwen3_message (\<lambda>_. ''null'') (last_query_scan example_reasoning_conversation)
            example_reasoning_conversation 1 \<lparr>buf = [], spans = []\<rparr>)
       = ''<|im_start|>assistant\<newline><think>\<newline>r\<newline></think>\<newline>\<newline>hi<|im_end|>\<newline>''\<close>
proof -
  have h1: "1 < length example_reasoning_conversation"
    by (simp add: example_reasoning_conversation_def)
  have h2: "role (example_reasoning_conversation ! 1) = ''assistant''"
    by (simp add: example_reasoning_conversation_def)
  have h3: "derive_reasoning (example_reasoning_conversation ! 1) = (''hi'', ''r'')"
    by code_simp
  have h4: "0 = last_query_index (last_query_scan example_reasoning_conversation)"
    by code_simp
  have t: "tool_calls (example_reasoning_conversation ! 1) = []"
    by (simp add: example_reasoning_conversation_def)
  have l: "length example_reasoning_conversation = 2"
    by (simp add: example_reasoning_conversation_def)
  note e = think_block_after_last_query[OF h1 h2 h3 h4, of "\<lambda>_. ''null''"
      "\<lparr>buf = [], spans = []\<rparr>", THEN conjunct2, THEN conjunct2, THEN conjunct2]
  have "buf (qwen3_message (\<lambda>_. ''null'') (last_query_scan example_reasoning_conversation)
            example_reasoning_conversation 1 \<lparr>buf = [], spans = []\<rparr>)
       = ''<|im_start|>assistant\<newline><think>\<newline>r\<newline></think>\<newline>\<newline>hi<|im_end|>\<newline>''"
    unfolding e
    by (simp add: example_reasoning_conversation_def strip_def lstrip_def rstrip_def)
  with h4 show ?thesis by simp
qed

text \<open>
  The claim as first stated fails in two places. A conversation of one assistant message
  has \<^verbatim>\<open>last_query_index\<close> 0, so the message is at that index and final, and it is rendered
  without a think block. And the content after the think block is not the content as
  derived: with an explicit reasoning content and a content that starts with a newline,
  the newline is dropped.
\<close>

theorem think_block_counterexample:
  \<open>last_query_index (last_query_scan
       [\<lparr>role = ''assistant'', content = ''hi'', tool_calls = [], reasoning_content = Undefined\<rparr>]) = 0
   \<and> render QWEN3_TEMPLATE (\<lambda>_. ''null'')
        \<lparr>messages = [\<lparr>role = ''assistant'', content = ''hi'', tool_calls = [],
                       reasoning_content = Undefined\<rparr>],
         tools = [], add_generation_prompt = False, enable_thinking = Undefined\<rparr>
       = Inr (''<|im_start|>assistant\<newline>hi<|im_end|>\<newline>'', [(0, 35)])
   \<and> derive_reasoning
        \<lparr>role = ''assistant'', content = ''\<newline>hi'', tool_calls = [], reasoning_content = Value ''r''\<rparr>
       = (''\<newline>hi'', ''r'')
   \<and> render QWEN3_TEMPLATE (\<lambda>_. ''null'')
        \<lparr>messages = [\<lparr>role = ''user'', content = ''q'', tool_calls = [],
                       reasoning_content = Undefined\<rparr>,
                     \<lparr>role = ''assistant'', content = ''\<newline>hi'', tool_calls = [],
                       reasoning_content = Value ''r''\<rparr>],
         tools = [], add_generation_prompt = False, enable_thinking = Undefined\<rparr>
       = Inr (''<|im_start|>user\<newline>q<|im_end|>\<newline><|im_start|>assistant\<newline><think>\<newline>r\<newline></think>\<newline>\<newline>hi<|im_end|>\<newline>'',
              [(29, 84)])\<close>
  by code_simp



text \<open>
  C5 (as amended). The loop over \<^verbatim>\<open>messages[::-1]\<close> visits the messages from the last to the
  first: for a list of a user, an assistant and a user message it visits the user message
  of index 2, then the assistant message of index 1, then the user message of index 0. The
  value \<^verbatim>\<open>index = (messages|length - 1) - loop.index0\<close> paired with each visited message is
  the message's position in the forward list, and it is what the scan stores in
  \<^verbatim>\<open>ns.last_query_index\<close>.
\<close>

theorem reverse_scan_visits:
  \<open>length (reverse_visits msgs) = length msgs
   \<and> (\<forall>k. k < length msgs \<longrightarrow>
         reverse_visits msgs ! k = (int (length msgs - 1 - k), msgs ! (length msgs - 1 - k)))
   \<and> reverse_visits [u, a, v] = [(2, v), (1, a), (0, u)]
   \<and> last_query_scan msgs =
       fold scan_message (reverse_visits msgs)
         \<lparr>multi_step_tool = True, last_query_index = int (length msgs) - 1\<rparr>\<close>
proof -
  have "reverse_visits [u, a, v] = [(2, v), (1, a), (0, u)]"
    by (simp add: reverse_visits_def upt_rec numeral_3_eq_3)
  then show ?thesis
    by (simp add: length_reverse_visits reverse_visits_nth last_query_scan_def)
qed

theorem reverse_scan_visits_witness:
  \<open>reverse_visits example_user_assistant_user ! 0
     = (2, \<lparr>role = ''user'', content = ''c'', tool_calls = [], reasoning_content = Undefined\<rparr>)
   \<and> reverse_visits example_user_assistant_user ! 2
     = (0, \<lparr>role = ''user'', content = ''a'', tool_calls = [], reasoning_content = Undefined\<rparr>)\<close>
proof -
  have l: "length example_user_assistant_user = 3" by (simp add: example_user_assistant_user_def)
  have "0 < length example_user_assistant_user" "2 < length example_user_assistant_user"
    by (simp_all add: l)
  from reverse_scan_visits[of example_user_assistant_user, THEN conjunct2, THEN conjunct1,
      rule_format, OF this(1)]
    reverse_scan_visits[of example_user_assistant_user, THEN conjunct2, THEN conjunct1,
      rule_format, OF this(2)]
  show ?thesis by (simp add: l) (simp add: example_user_assistant_user_def)
qed

text \<open>
  The claim as first stated has the assistant message visited first; the first message
  visited is the user message of index 2.
\<close>

theorem reverse_scan_visits_counterexample:
  \<open>map (\<lambda>(index, message). (index, role message)) (reverse_visits example_user_assistant_user)
     = [(2, ''user''), (1, ''assistant''), (0, ''user'')]\<close>
  by code_simp

text \<open>
  C9. In the declarative model, rendering a conversation template over a single message
  whose role has a formatter is that formatter applied to the content of the message, with
  no separator. For \<^verbatim>\<open>QWEN2_TEMPLATE\<close> a lone user message renders to the user turn around its
  content, and for \<^verbatim>\<open>YI1_5_TEMPLATE\<close> a lone system message renders to its content.
\<close>

theorem single_message_is_formatter:
  \<open>(role_formatter T (role m) = Some f \<longrightarrow>
       conversation_render T [m] = Inr (formatter_render f (content m)))
   \<and> (role m = ''user'' \<longrightarrow>
       conversation_render QWEN2_TEMPLATE [m]
         = Inr (''<|im_start|>user\<newline>'' @ content m @ ''<|im_end|>\<newline>''))
   \<and> (role m = ''system'' \<longrightarrow> conversation_render YI1_5_TEMPLATE [m] = Inr (content m))\<close>
  by (simp add: conversation_render_def role_formatter_def QWEN2_TEMPLATE_def YI1_5_TEMPLATE_def
      formatter_render_def format_component_def str_replace_def split_user split_placeholder)

theorem single_message_is_formatter_witness:
  \<open>conversation_render QWEN2_TEMPLATE
      [\<lparr>role = ''user'', content = ''hello'', tool_calls = [], reasoning_content = Undefined\<rparr>]
     = Inr ''<|im_start|>user\<newline>hello<|im_end|>\<newline>''
   \<and> conversation_render YI1_5_TEMPLATE
      [\<lparr>role = ''system'', content = ''be brief'', tool_calls = [], reasoning_content = Undefined\<rparr>]
     = Inr ''be brief''\<close>
  using single_message_is_formatter[of QWEN2_TEMPLATE
      "\<lparr>role = ''user'', content = ''hello'', tool_calls = [], reasoning_content = Undefined\<rparr>"]
    single_message_is_formatter[of YI1_5_TEMPLATE
      "\<lparr>role = ''system'', content = ''be brief'', tool_calls = [], reasoning_content = Undefined\<rparr>"]
  by simp




end
